theory Spec2Isabelle
  imports Main "HOL-Library.Char_ord" "HOL-Library.List_Lexorder" "HOL-Library.Product_Lexorder"
begin

section \<open>Errors and the runtime\<close>

text \<open>
  The package throws plain JavaScript \<open>Error\<close> objects that differ only in their message;
  an error reply of the store reaches the caller as the client library's \<open>ReplyError\<close>.
\<close>

datatype error = Error string | ReplyError string

text \<open>
  Numbers are whole throughout: times and durations in milliseconds, windows in seconds,
  limits and retries as counts. A template literal prints an integer in decimal.
\<close>

fun dec :: "nat \<Rightarrow> string" where
  "dec n = (if n < 10 then [''0123456789'' ! n] else dec (n div 10) @ [''0123456789'' ! (n mod 10)])"

declare dec.simps [simp del]

definition str_of_int :: "int \<Rightarrow> string" where
  "str_of_int i = (if i < 0 then ''-'' @ dec (nat (- i)) else dec (nat i))"

text \<open>
  \<open>x || d\<close> on an optional number: the default replaces a missing value and the falsy
  number \<open>0\<close>.
\<close>

definition or_default :: "int option \<Rightarrow> int \<Rightarrow> int" where
  "or_default x d = (case x of None \<Rightarrow> d | Some v \<Rightarrow> if v = 0 then d else v)"

text \<open>
  \<open>setTimeout\<close> of the runtime: a delay below 1 or above \<open>2^31 - 1\<close> is set to 1.
\<close>

definition timeout :: "int \<Rightarrow> int" where
  "timeout d = (if d < 1 \<or> 2147483647 < d then 1 else d)"

section \<open>The shared store\<close>

text \<open>
  The store is the collaborator of the package: a keyspace of typed values, each with an
  optional expiry (an absolute time in milliseconds). A sorted set is kept as the list of
  its (score, member) pairs; its order is the order of the pairs, score first, then member.
  From its expiry time on, a key is absent for every command (\<open>lookup\<close>). The commands
  below are the ones the package sends, with the replies the store documents for them; a
  command on a key that holds the other type of value is refused with \<open>WRONGTYPE\<close>.
\<close>

datatype rvalue = RString string | RZSet "(int \<times> string) list"

type_synonym store = "string \<rightharpoonup> (rvalue \<times> int option)"

definition live :: "int \<Rightarrow> int option \<Rightarrow> bool" where
  "live t e = (case e of None \<Rightarrow> True | Some d \<Rightarrow> t < d)"

definition lookup :: "store \<Rightarrow> int \<Rightarrow> string \<Rightarrow> (rvalue \<times> int option) option" where
  "lookup st t k =
     (case st k of
        None \<Rightarrow> None
      | Some (v, e) \<Rightarrow> if live t e then Some (v, e) else None)"

definition wrongtype :: error where
  "wrongtype = ReplyError ''WRONGTYPE Operation against a key holding the wrong kind of value''"

text \<open>\<open>SET key value PX ms NX\<close>: set only when the key is absent; the reply says whether it was set.\<close>

definition redis_set_px_nx :: "store \<Rightarrow> int \<Rightarrow> string \<Rightarrow> string \<Rightarrow> int \<Rightarrow> error + (bool \<times> store)" where
  "redis_set_px_nx st t k v px =
     (if px \<le> 0 then Inl (ReplyError ''ERR invalid expire time in set command'')
      else case lookup st t k of
        Some _ \<Rightarrow> Inr (False, st)
      | None \<Rightarrow> Inr (True, st(k \<mapsto> (RString v, Some (t + px)))))"

definition redis_get :: "store \<Rightarrow> int \<Rightarrow> string \<Rightarrow> error + string option" where
  "redis_get st t k =
     (case lookup st t k of
        None \<Rightarrow> Inr None
      | Some (RString v, _) \<Rightarrow> Inr (Some v)
      | Some (RZSet _, _) \<Rightarrow> Inl wrongtype)"

definition redis_del :: "store \<Rightarrow> int \<Rightarrow> string \<Rightarrow> int \<times> store" where
  "redis_del st t k = (if lookup st t k = None then 0 else 1, st(k := None))"

definition redis_pexpire :: "store \<Rightarrow> int \<Rightarrow> string \<Rightarrow> int \<Rightarrow> int \<times> store" where
  "redis_pexpire st t k ms =
     (case lookup st t k of
        None \<Rightarrow> (0, st)
      | Some (v, _) \<Rightarrow> (1, st(k \<mapsto> (v, Some (t + ms)))))"

definition redis_expire :: "store \<Rightarrow> int \<Rightarrow> string \<Rightarrow> int \<Rightarrow> int \<times> store" where
  "redis_expire st t k secs = redis_pexpire st t k (secs * 1000)"

definition in_score_range :: "int \<Rightarrow> int \<Rightarrow> int \<times> string \<Rightarrow> bool" where
  "in_score_range lo hi e = (lo \<le> fst e \<and> fst e \<le> hi)"

text \<open>\<open>ZREMRANGEBYSCORE key lo hi\<close>: both bounds inclusive; a set left empty is deleted.\<close>

definition redis_zremrangebyscore :: "store \<Rightarrow> int \<Rightarrow> string \<Rightarrow> int \<Rightarrow> int \<Rightarrow> error + (int \<times> store)" where
  "redis_zremrangebyscore st t k lo hi =
     (case lookup st t k of
        None \<Rightarrow> Inr (0, st)
      | Some (RString _, _) \<Rightarrow> Inl wrongtype
      | Some (RZSet zs, e) \<Rightarrow>
          (let kept = filter (\<lambda>x. \<not> in_score_range lo hi x) zs
           in Inr (int (length zs) - int (length kept),
                   if kept = [] then st(k := None) else st(k \<mapsto> (RZSet kept, e)))))"

definition redis_zcard :: "store \<Rightarrow> int \<Rightarrow> string \<Rightarrow> error + int" where
  "redis_zcard st t k =
     (case lookup st t k of
        None \<Rightarrow> Inr 0
      | Some (RString _, _) \<Rightarrow> Inl wrongtype
      | Some (RZSet zs, _) \<Rightarrow> Inr (int (length zs)))"

text \<open>\<open>ZADD key score member\<close>: a member already in the set gets the new score.\<close>

definition redis_zadd :: "store \<Rightarrow> int \<Rightarrow> string \<Rightarrow> int \<Rightarrow> string \<Rightarrow> error + (int \<times> store)" where
  "redis_zadd st t k score member =
     (case lookup st t k of
        None \<Rightarrow> Inr (1, st(k \<mapsto> (RZSet [(score, member)], None)))
      | Some (RString _, _) \<Rightarrow> Inl wrongtype
      | Some (RZSet zs, e) \<Rightarrow>
          Inr (if member \<in> snd ` set zs then 0 else 1,
               st(k \<mapsto> (RZSet ((score, member) # filter (\<lambda>x. snd x \<noteq> member) zs), e))))"

text \<open>\<open>ZRANGE key 0 0 WITHSCORES\<close>: the first pair of the set in its order, if any.\<close>

definition redis_zrange_first :: "store \<Rightarrow> int \<Rightarrow> string \<Rightarrow> error + (string \<times> int) option" where
  "redis_zrange_first st t k =
     (case lookup st t k of
        None \<Rightarrow> Inr None
      | Some (RString _, _) \<Rightarrow> Inl wrongtype
      | Some (RZSet zs, _) \<Rightarrow>
          (if zs = [] then Inr None else Inr (Some (snd (Min (set zs)), fst (Min (set zs))))))"

section \<open>The process: client, clock, random numbers and the commands it sends\<close>

datatype client_status = wait | connecting | ready

datatype command =
    SET string string int
  | EVAL_release string string
  | EVAL_extend string string int
  | EVAL_ratelimit string int int int int
  | DEL string
  | ZRANGE string

datatype event = Connect | Command command | Sleep int

text \<open>
  One process and the store it talks to. \<open>clock\<close> is what \<open>Date.now()\<close> returns and the
  time the store expires keys by; a command takes no time, a timer takes its delay.
  \<open>redisClient\<close> is the module's client (\<open>None\<close> before \<open>initConfig\<close>) with its connection
  status; a command sent through it reaches the store under the key the package names.
  \<open>mathRandom n\<close> is the text of the \<open>n\<close>-th \<open>Math.random().toString(36).substring(2)\<close> of
  the process, \<open>luaRandom n\<close> the text of the \<open>n\<close>-th \<open>math.random()\<close> of the store's
  scripts. \<open>trace\<close> lists the connection attempts, commands and timers in the order they
  were issued. Other processes are not part of a world: what they did is in the store a
  call starts from.
\<close>

record world =
  store :: store
  clock :: int
  redisClient :: "client_status option"
  mathRandom :: "nat \<Rightarrow> string"
  jsDraws :: nat
  luaRandom :: "nat \<Rightarrow> string"
  luaDraws :: nat
  trace :: "event list"

definition getCacheClient :: "world \<Rightarrow> (error + unit) \<times> world" where
  "getCacheClient w =
     (case redisClient w of
        None \<Rightarrow> (Inl (Error ''Redis client not initialized. Call initConfig() first.''), w)
      | Some s \<Rightarrow>
          (Inr (),
           if s = wait then w\<lparr>redisClient := Some connecting, trace := trace w @ [Connect]\<rparr>
           else w))"

definition issue :: "command \<Rightarrow> world \<Rightarrow> world" where
  "issue c w = w\<lparr>trace := trace w @ [Command c]\<rparr>"

definition sleep :: "int \<Rightarrow> world \<Rightarrow> world" where
  "sleep d w = w\<lparr>clock := clock w + timeout d, trace := trace w @ [Sleep d]\<rparr>"

section \<open>Locks\<close>

text \<open>
  The lock module. An option that is not given is \<open>None\<close>. The parameter \<open>key\<close> of the
  four functions is written \<open>k\<close> (\<open>key\<close> is the field of the rate-limit options below), and
  inside \<open>acquireLock\<close> the constants \<open>ttl\<close>, \<open>retries\<close> and \<open>retryDelay\<close> are \<open>px\<close>, \<open>n\<close> and
  \<open>delay\<close>; the \<open>ttl\<close> of \<open>extendLock\<close> is \<open>ms\<close>.
\<close>

record LockOptions =
  ttl :: "int option"
  retries :: "int option"
  retryDelay :: "int option"

text \<open>\<open>redis.set(lockKey, token, 'PX', ttl, 'NX')\<close>, and whether it answered \<open>OK\<close>.\<close>

definition redis_set :: "string \<Rightarrow> string \<Rightarrow> int \<Rightarrow> world \<Rightarrow> (error + bool) \<times> world" where
  "redis_set lockKey token px w =
     (let w1 = issue (SET lockKey token px) w
      in case redis_set_px_nx (store w1) (clock w1) lockKey token px of
           Inl e \<Rightarrow> (Inl e, w1)
         | Inr (ok, st) \<Rightarrow> (Inr ok, w1\<lparr>store := st\<rparr>))"

text \<open>The \<open>for\<close> loop of \<open>acquireLock\<close>, from its counter \<open>i\<close> on.\<close>

function acquire_loop ::
  "string \<Rightarrow> string \<Rightarrow> int \<Rightarrow> int \<Rightarrow> int \<Rightarrow> int \<Rightarrow> world \<Rightarrow> (error + string option) \<times> world" where
  "acquire_loop lockKey token px n delay i w =
     (if i \<le> n then
        (case redis_set lockKey token px w of
           (Inl e, w1) \<Rightarrow> (Inl e, w1)
         | (Inr ok, w1) \<Rightarrow>
             if ok then (Inr (Some token), w1)
             else acquire_loop lockKey token px n delay (i + 1)
                    (if i < n then sleep delay w1 else w1))
      else (Inr None, w))"
  by pat_completeness auto
termination
  by (relation "measure (\<lambda>(lockKey, token, px, n, delay, i, w). nat (n + 1 - i))") auto

declare acquire_loop.simps [simp del]

definition acquireLock :: "string \<Rightarrow> LockOptions \<Rightarrow> world \<Rightarrow> (error + string option) \<times> world" where
  "acquireLock k options w =
     (if k = [] then (Inl (Error ''Lock key must be a non-empty string''), w)
      else case getCacheClient w of
        (Inl e, w0) \<Rightarrow> (Inl e, w0)
      | (Inr _, w1) \<Rightarrow>
          (let lockKey = ''lock:'' @ k;
               token = str_of_int (clock w1) @ ''-'' @ mathRandom w1 (jsDraws w1);
               w2 = w1\<lparr>jsDraws := jsDraws w1 + 1\<rparr>;
               px = or_default (ttl options) 10000
           in if px < 1 then (Inl (Error ''Lock TTL must be positive''), w2)
              else acquire_loop lockKey token px
                     (or_default (retries options) 0) (or_default (retryDelay options) 100) 0 w2))"

text \<open>The two scripts compare the stored value with the token and act only on a match.\<close>

definition release_script :: "store \<Rightarrow> int \<Rightarrow> string \<Rightarrow> string \<Rightarrow> error + (int \<times> store)" where
  "release_script st t lockKey token =
     (case redis_get st t lockKey of
        Inl e \<Rightarrow> Inl e
      | Inr v \<Rightarrow> if v = Some token then Inr (redis_del st t lockKey) else Inr (0, st))"

definition releaseLock :: "string \<Rightarrow> string \<Rightarrow> world \<Rightarrow> (error + bool) \<times> world" where
  "releaseLock k token w =
     (case getCacheClient w of
        (Inl e, w0) \<Rightarrow> (Inl e, w0)
      | (Inr _, w1) \<Rightarrow>
          (let lockKey = ''lock:'' @ k;
               w2 = issue (EVAL_release lockKey token) w1
           in case release_script (store w2) (clock w2) lockKey token of
                Inl e \<Rightarrow> (Inl e, w2)
              | Inr (r, st) \<Rightarrow> (Inr (r = 1), w2\<lparr>store := st\<rparr>)))"

definition extend_script :: "store \<Rightarrow> int \<Rightarrow> string \<Rightarrow> string \<Rightarrow> int \<Rightarrow> error + (int \<times> store)" where
  "extend_script st t lockKey token ms =
     (case redis_get st t lockKey of
        Inl e \<Rightarrow> Inl e
      | Inr v \<Rightarrow> if v = Some token then Inr (redis_pexpire st t lockKey ms) else Inr (0, st))"

definition extendLock :: "string \<Rightarrow> string \<Rightarrow> int \<Rightarrow> world \<Rightarrow> (error + bool) \<times> world" where
  "extendLock k token ms w =
     (case getCacheClient w of
        (Inl e, w0) \<Rightarrow> (Inl e, w0)
      | (Inr _, w1) \<Rightarrow>
          (let lockKey = ''lock:'' @ k;
               w2 = issue (EVAL_extend lockKey token ms) w1
           in case extend_script (store w2) (clock w2) lockKey token ms of
                Inl e \<Rightarrow> (Inl e, w2)
              | Inr (r, st) \<Rightarrow> (Inr (r = 1), w2\<lparr>store := st\<rparr>)))"

text \<open>
  \<open>fn\<close> is the caller's critical section: it runs in the world the acquisition left,
  returns or throws, and leaves a world of its own. \<open>finally\<close> runs the release on both
  exits; an error of the release replaces the outcome of \<open>fn\<close>.
\<close>

definition withLock ::
  "string \<Rightarrow> (world \<Rightarrow> (error + 'a) \<times> world) \<Rightarrow> LockOptions \<Rightarrow> world \<Rightarrow> (error + 'a) \<times> world" where
  "withLock k fn options w =
     (case acquireLock k options w of
        (Inl e, w1) \<Rightarrow> (Inl e, w1)
      | (Inr None, w1) \<Rightarrow> (Inl (Error (''Failed to acquire lock: '' @ k)), w1)
      | (Inr (Some token), w1) \<Rightarrow>
          if token = [] then (Inl (Error (''Failed to acquire lock: '' @ k)), w1)
          else (case fn w1 of
                  (r, w2) \<Rightarrow>
                    (case releaseLock k token w2 of
                       (Inl e, w3) \<Rightarrow> (Inl e, w3)
                     | (Inr _, w3) \<Rightarrow> (r, w3))))"

section \<open>Rate limiting\<close>

record RateLimitOptions =
  limit :: int
  window :: int
  key :: string

record RateLimitResult =
  allowed :: bool
  remaining :: int
  resetAt :: int
  retryAfter :: "int option"

text \<open>
  The sliding-window script, run by the store as one transaction at store time \<open>t\<close>.
  \<open>rnd\<close> is the text of the script's \<open>math.random()\<close>, drawn only on the accepting branch.
\<close>

definition ratelimit_script ::
  "store \<Rightarrow> int \<Rightarrow> string \<Rightarrow> int \<Rightarrow> int \<Rightarrow> int \<Rightarrow> int \<Rightarrow> string \<Rightarrow> error + ((int \<times> int) \<times> store)" where
  "ratelimit_script st t rkey now windowStart lim win rnd =
     (case redis_zremrangebyscore st t rkey 0 windowStart of
        Inl e \<Rightarrow> Inl e
      | Inr (_, st1) \<Rightarrow>
          (case redis_zcard st1 t rkey of
             Inl e \<Rightarrow> Inl e
           | Inr count \<Rightarrow>
               if count < lim then
                 (case redis_zadd st1 t rkey now (str_of_int now @ ''-'' @ rnd) of
                    Inl e \<Rightarrow> Inl e
                  | Inr (_, st2) \<Rightarrow> Inr ((1, count), snd (redis_expire st2 t rkey win)))
               else Inr ((0, count), st1)))"

definition checkRateLimit ::
  "string \<Rightarrow> RateLimitOptions \<Rightarrow> world \<Rightarrow> (error + RateLimitResult) \<times> world" where
  "checkRateLimit identifier options w =
     (if identifier = [] then (Inl (Error ''Identifier must be a non-empty string''), w)
      else if key options = [] then (Inl (Error ''Options.key must be a non-empty string''), w)
      else if limit options < 1 then (Inl (Error ''Options.limit must be a positive number''), w)
      else if window options < 1 then (Inl (Error ''Options.window must be a positive number''), w)
      else case getCacheClient w of
        (Inl e, w0) \<Rightarrow> (Inl e, w0)
      | (Inr _, w1) \<Rightarrow>
          (let rkey = ''ratelimit:'' @ key options @ '':'' @ identifier;
               now = clock w1;
               windowStart = now - window options * 1000;
               w2 = issue (EVAL_ratelimit rkey now windowStart (limit options) (window options)) w1
           in case ratelimit_script (store w2) (clock w2) rkey now windowStart
                     (limit options) (window options) (luaRandom w2 (luaDraws w2)) of
                Inl e \<Rightarrow> (Inl e, w2)
              | Inr ((a, count), st) \<Rightarrow>
                  (let w3 = w2\<lparr>store := st, luaDraws := luaDraws w2 + (if a = 1 then 1 else 0)\<rparr>;
                       is_allowed = (a = 1);
                       remaining_slots = max 0 (limit options - count - (if is_allowed then 1 else 0));
                       reset_at = now + window options * 1000
                   in if \<not> is_allowed then
                        (let w4 = issue (ZRANGE rkey) w3
                         in case redis_zrange_first (store w4) (clock w4) rkey of
                              Inl e \<Rightarrow> (Inl e, w4)
                            | Inr oldestRequest \<Rightarrow>
                                (let oldestTimestamp =
                                       (case oldestRequest of Some (m, s) \<Rightarrow> s | None \<Rightarrow> now);
                                     retry_after = max 0 (oldestTimestamp + window options * 1000 - now)
                                 in (Inr \<lparr>allowed = False, remaining = 0, resetAt = reset_at,
                                           retryAfter = Some retry_after\<rparr>, w4)))
                      else (Inr \<lparr>allowed = True, remaining = remaining_slots, resetAt = reset_at,
                                  retryAfter = None\<rparr>, w3))))"

definition resetRateLimit :: "string \<Rightarrow> string \<Rightarrow> world \<Rightarrow> (error + unit) \<times> world" where
  "resetRateLimit identifier k w =
     (case getCacheClient w of
        (Inl e, w0) \<Rightarrow> (Inl e, w0)
      | (Inr _, w1) \<Rightarrow>
          (let rkey = ''ratelimit:'' @ k @ '':'' @ identifier;
               w2 = issue (DEL rkey) w1
           in (Inr (), w2\<lparr>store := snd (redis_del (store w2) (clock w2) rkey)\<rparr>)))"

section \<open>Reading a rate window\<close>

text \<open>
  The entries a sorted-set command finds at a key at time \<open>t\<close>: none when the key is
  absent or expired; no answer when the key holds a string.
\<close>

definition zset_at :: "store \<Rightarrow> int \<Rightarrow> string \<Rightarrow> (int \<times> string) list option" where
  "zset_at st t k =
     (case lookup st t k of
        None \<Rightarrow> Some []
      | Some (RZSet zs, _) \<Rightarrow> Some zs
      | Some (RString _, _) \<Rightarrow> None)"

section \<open>Concrete worlds\<close>

text \<open>
  A process with a connected client and an empty store, the same process while another
  holder's lock on \<open>res\<close> has nine seconds left, and options asking for two retries.
\<close>

definition ex_world :: world where
  "ex_world = \<lparr>store = Map.empty, clock = 1700000000000, redisClient = Some ready,
     mathRandom = (\<lambda>_. ''4fzzzxjylrx''), jsDraws = 0,
     luaRandom = (\<lambda>_. ''0.84018771715471''), luaDraws = 0, trace = []\<rparr>"

definition ex_held :: world where
  "ex_held = ex_world\<lparr>store := [''lock:res'' \<mapsto> (RString ''1699999999000-k2j8x1w'', Some 1700000009000)]\<rparr>"

definition ex_opts :: LockOptions where
  "ex_opts = \<lparr>ttl = None, retries = Some 2, retryDelay = Some 50\<rparr>"


text \<open>
  A rate window with one entry stamped exactly one second before the clock and one stamped
  half a second before it, a limit of two and a limit of one per second, lock options with a
  zero TTL and with nothing set, and two critical sections that take 20 ms.
\<close>

definition ex_window :: world where
  "ex_window = ex_world\<lparr>store :=
     [''ratelimit:api:u'' \<mapsto>
        (RZSet [(1699999999500, ''1699999999500-0.84018771715471''),
                (1699999999000, ''1699999999000-0.84018771715471'')],
         Some 1700000000500)]\<rparr>"

definition ex_limit :: RateLimitOptions where
  "ex_limit = \<lparr>limit = 2, window = 1, key = ''api''\<rparr>"


definition ex_zero_ttl :: LockOptions where
  "ex_zero_ttl = \<lparr>ttl = Some 0, retries = None, retryDelay = None\<rparr>"

definition ex_defaults :: LockOptions where
  "ex_defaults = \<lparr>ttl = None, retries = None, retryDelay = None\<rparr>"

definition ex_fn_ok :: "world \<Rightarrow> (error + int) \<times> world" where
  "ex_fn_ok w = (Inr 42, sleep 20 w)"

definition ex_fn_throw :: "world \<Rightarrow> (error + int) \<times> world" where
  "ex_fn_throw w = (Inl (Error ''boom''), sleep 20 w)"

section \<open>Facts about the runtime and the client\<close>

lemma timeout_pos: "1 \<le> timeout d"
  by (simp add: timeout_def)

lemma live_mono: "live t e \<Longrightarrow> s \<le> t \<Longrightarrow> live s e"
  by (cases e) (auto simp: live_def)

text \<open>
  The set-if-absent command decides on the store it finds, whoever wrote it: it sets the
  key exactly when no unexpired value is there, and otherwise changes nothing.
\<close>

lemma set_if_absent_exclusive:
  assumes "0 < px" and "redis_set_px_nx st t k v px = Inr (ok, st')"
  shows "ok = (lookup st t k = None) \<and> (\<not> ok \<longrightarrow> st' = st)"
  using assms by (auto simp: redis_set_px_nx_def split: option.splits)

lemma redis_set_eq:
  "0 < px \<Longrightarrow> redis_set lockKey token px w =
     (if lookup (store w) (clock w) lockKey = None
      then (Inr True, (issue (SET lockKey token px) w)\<lparr>store := (store w)(lockKey \<mapsto> (RString token, Some (clock w + px)))\<rparr>)
      else (Inr False, issue (SET lockKey token px) w))"
  by (auto simp: redis_set_def redis_set_px_nx_def issue_def Let_def split: option.splits)

lemma acquire_loop_done: "n < i \<Longrightarrow> acquire_loop lockKey token px n delay i w = (Inr None, w)"
  by (simp add: acquire_loop.simps)

lemma acquire_loop_success:
  assumes "0 < px" "i \<le> n" "lookup (store w) (clock w) lockKey = None"
  shows "acquire_loop lockKey token px n delay i w =
     (Inr (Some token),
      (issue (SET lockKey token px) w)\<lparr>store := (store w)(lockKey \<mapsto> (RString token, Some (clock w + px)))\<rparr>)"
  using assms by (subst acquire_loop.simps) (simp add: redis_set_eq)

lemma acquire_loop_retry:
  assumes "0 < px" "i < n" "lookup (store w) (clock w) lockKey = Some ve"
  shows "acquire_loop lockKey token px n delay i w =
     acquire_loop lockKey token px n delay (i + 1) (sleep delay (issue (SET lockKey token px) w))"
  using assms by (subst acquire_loop.simps) (simp add: redis_set_eq)

lemma acquire_loop_last:
  assumes "0 < px" "i = n" "lookup (store w) (clock w) lockKey = Some ve"
  shows "acquire_loop lockKey token px n delay i w = (Inr None, issue (SET lockKey token px) w)"
  using assms by (subst acquire_loop.simps) (simp add: redis_set_eq acquire_loop_done)

lemma acquire_loop_shape:
  assumes "0 < px" "i \<le> n"
  shows "\<exists>m. m \<le> nat (n - i) \<and>
     snd (acquire_loop lockKey token px n delay i w) =
        w\<lparr>store := store (snd (acquire_loop lockKey token px n delay i w)),
          clock := clock w + int m * timeout delay,
          trace := trace w @ concat (replicate m [Command (SET lockKey token px), Sleep delay])
                      @ [Command (SET lockKey token px)]\<rparr> \<and>
     (\<forall>j<m. lookup (store w) (clock w + int j * timeout delay) lockKey \<noteq> None) \<and>
     (if lookup (store w) (clock w + int m * timeout delay) lockKey = None
      then fst (acquire_loop lockKey token px n delay i w) = Inr (Some token) \<and>
           store (snd (acquire_loop lockKey token px n delay i w)) =
             (store w)(lockKey \<mapsto> (RString token, Some (clock w + int m * timeout delay + px)))
      else fst (acquire_loop lockKey token px n delay i w) = Inr None \<and> m = nat (n - i) \<and>
           store (snd (acquire_loop lockKey token px n delay i w)) = store w)"
  using assms
proof (induction "nat (n - i)" arbitrary: i w)
  case 0
  then have [simp]: "i = n" by simp
  let ?c = "SET lockKey token px"
  have eq: "acquire_loop lockKey token px n delay i w =
     (if lookup (store w) (clock w) lockKey = None
      then (Inr (Some token), (issue ?c w)\<lparr>store := (store w)(lockKey \<mapsto> (RString token, Some (clock w + px)))\<rparr>)
      else (Inr None, issue ?c w))"
    by (subst acquire_loop.simps) (simp add: redis_set_eq[OF \<open>0 < px\<close>] acquire_loop_done)
  show ?case
    unfolding eq by (rule exI[of _ 0]) (simp add: issue_def)
next
  case (Suc x)
  then have lt: "i < n" and x: "x = nat (n - (i + 1))" and le: "i + 1 \<le> n" by auto
  let ?c = "SET lockKey token px"
  show ?case
  proof (cases "lookup (store w) (clock w) lockKey = None")
    case True
    have eq: "acquire_loop lockKey token px n delay i w =
      (Inr (Some token), (issue ?c w)\<lparr>store := (store w)(lockKey \<mapsto> (RString token, Some (clock w + px)))\<rparr>)"
      using True lt by (subst acquire_loop.simps) (simp add: redis_set_eq[OF \<open>0 < px\<close>])
    show ?thesis
      unfolding eq using True by (intro exI[of _ 0]) (simp add: issue_def)
  next
    case False
    let ?w1 = "sleep delay (issue ?c w)"
    from False obtain ve where ve: "lookup (store w) (clock w) lockKey = Some ve" by auto
    have step: "acquire_loop lockKey token px n delay i w = acquire_loop lockKey token px n delay (i + 1) ?w1"
      using ve lt by (subst acquire_loop.simps) (simp add: redis_set_eq[OF \<open>0 < px\<close>])
    from Suc.hyps(1)[OF x \<open>0 < px\<close> le, of ?w1]
    obtain m where m: "m \<le> nat (n - (i + 1))"
      and s: "snd (acquire_loop lockKey token px n delay (i + 1) ?w1) =
        ?w1\<lparr>store := store (snd (acquire_loop lockKey token px n delay (i + 1) ?w1)),
          clock := clock ?w1 + int m * timeout delay,
          trace := trace ?w1 @ concat (replicate m [Command ?c, Sleep delay]) @ [Command ?c]\<rparr>"
      and f: "\<forall>j<m. lookup (store ?w1) (clock ?w1 + int j * timeout delay) lockKey \<noteq> None"
      and r: "(if lookup (store ?w1) (clock ?w1 + int m * timeout delay) lockKey = None
      then fst (acquire_loop lockKey token px n delay (i + 1) ?w1) = Inr (Some token) \<and>
           store (snd (acquire_loop lockKey token px n delay (i + 1) ?w1)) =
             (store ?w1)(lockKey \<mapsto> (RString token, Some (clock ?w1 + int m * timeout delay + px)))
      else fst (acquire_loop lockKey token px n delay (i + 1) ?w1) = Inr None \<and> m = nat (n - (i + 1)) \<and>
           store (snd (acquire_loop lockKey token px n delay (i + 1) ?w1)) = store ?w1)"
      by blast
    have c1: "clock ?w1 = clock w + timeout delay" and st1: "store ?w1 = store w"
      and tr1: "trace ?w1 = trace w @ [Command ?c, Sleep delay]"
      by (simp_all add: sleep_def issue_def)
    have ck: "clock ?w1 + int m * timeout delay = clock w + int (Suc m) * timeout delay"
      by (simp add: c1 algebra_simps)
    have A: "Suc m \<le> nat (n - i)" using m lt by linarith
    have B: "snd (acquire_loop lockKey token px n delay i w) =
        w\<lparr>store := store (snd (acquire_loop lockKey token px n delay i w)),
          clock := clock w + int (Suc m) * timeout delay,
          trace := trace w @ concat (replicate (Suc m) [Command ?c, Sleep delay]) @ [Command ?c]\<rparr>"
      unfolding step by (subst s) (simp add: sleep_def issue_def algebra_simps)
    have C: "(if lookup (store w) (clock w + int (Suc m) * timeout delay) lockKey = None
      then fst (acquire_loop lockKey token px n delay i w) = Inr (Some token) \<and>
           store (snd (acquire_loop lockKey token px n delay i w)) =
             (store w)(lockKey \<mapsto> (RString token, Some (clock w + int (Suc m) * timeout delay + px)))
      else fst (acquire_loop lockKey token px n delay i w) = Inr None \<and> Suc m = nat (n - i) \<and>
           store (snd (acquire_loop lockKey token px n delay i w)) = store w)"
      using r lt m unfolding step ck st1 by (auto split: if_splits)
    have D: "lookup (store w) (clock w + int j * timeout delay) lockKey \<noteq> None" if "j < Suc m" for j
    proof (cases j)
      case 0
      with False show ?thesis by simp
    next
      case (Suc j')
      with that have "j' < m" by simp
      with f have "lookup (store ?w1) (clock ?w1 + int j' * timeout delay) lockKey \<noteq> None" by blast
      then show ?thesis unfolding c1 st1 Suc by (simp add: algebra_simps)
    qed
    show ?thesis
      using A B C D by blast
  qed
qed

lemma getCacheClient_ok:
  "redisClient w \<noteq> None \<Longrightarrow> fst (getCacheClient w) = Inr ()"
  by (auto simp: getCacheClient_def split: option.splits)

lemma getCacheClient_fields:
  "store (snd (getCacheClient w)) = store w"
  "clock (snd (getCacheClient w)) = clock w"
  "mathRandom (snd (getCacheClient w)) = mathRandom w"
  "jsDraws (snd (getCacheClient w)) = jsDraws w"
  "luaRandom (snd (getCacheClient w)) = luaRandom w"
  "luaDraws (snd (getCacheClient w)) = luaDraws w"
  by (auto simp: getCacheClient_def split: option.splits)

lemma getCacheClient_client:
  "redisClient w \<noteq> None \<Longrightarrow> redisClient (snd (getCacheClient w)) \<noteq> None"
  by (auto simp: getCacheClient_def split: option.splits)

lemma acquireLock_valid:
  assumes "k \<noteq> []" "redisClient w \<noteq> None" "1 \<le> or_default (ttl opts) 10000"
  shows "acquireLock k opts w =
     acquire_loop (''lock:'' @ k) (str_of_int (clock w) @ ''-'' @ mathRandom w (jsDraws w))
       (or_default (ttl opts) 10000) (or_default (retries opts) 0) (or_default (retryDelay opts) 100) 0
       ((snd (getCacheClient w))\<lparr>jsDraws := jsDraws w + 1\<rparr>)"
  using assms
  by (simp add: acquireLock_def Let_def case_prod_beta getCacheClient_ok getCacheClient_fields)


lemma acquireLock_shape:
  assumes "k \<noteq> []" "redisClient w \<noteq> None" "1 \<le> or_default (ttl opts) 10000"
    and "0 \<le> or_default (retries opts) 0"
  shows "\<exists>m. m \<le> nat (or_default (retries opts) 0) \<and>
     (\<forall>j<m. lookup (store w) (clock w + int j * timeout (or_default (retryDelay opts) 100))
               (''lock:'' @ k) \<noteq> None) \<and>
     clock (snd (acquireLock k opts w)) = clock w + int m * timeout (or_default (retryDelay opts) 100) \<and>
     trace (snd (acquireLock k opts w)) =
       trace (snd (getCacheClient w)) @
       concat (replicate m
         [Command (SET (''lock:'' @ k) (str_of_int (clock w) @ ''-'' @ mathRandom w (jsDraws w))
                    (or_default (ttl opts) 10000)),
          Sleep (or_default (retryDelay opts) 100)]) @
       [Command (SET (''lock:'' @ k) (str_of_int (clock w) @ ''-'' @ mathRandom w (jsDraws w))
                    (or_default (ttl opts) 10000))] \<and>
     (if lookup (store w) (clock w + int m * timeout (or_default (retryDelay opts) 100)) (''lock:'' @ k) = None
      then fst (acquireLock k opts w) = Inr (Some (str_of_int (clock w) @ ''-'' @ mathRandom w (jsDraws w))) \<and>
           store (snd (acquireLock k opts w)) =
             (store w)(''lock:'' @ k \<mapsto> (RString (str_of_int (clock w) @ ''-'' @ mathRandom w (jsDraws w)),
                Some (clock w + int m * timeout (or_default (retryDelay opts) 100) + or_default (ttl opts) 10000)))
      else fst (acquireLock k opts w) = Inr None \<and> m = nat (or_default (retries opts) 0) \<and>
           store (snd (acquireLock k opts w)) = store w)"
proof -
  let ?w2 = "(snd (getCacheClient w))\<lparr>jsDraws := jsDraws w + 1\<rparr>"
  let ?tok = "str_of_int (clock w) @ ''-'' @ mathRandom w (jsDraws w)"
  let ?px = "or_default (ttl opts) 10000"
  let ?n = "or_default (retries opts) 0"
  let ?d = "or_default (retryDelay opts) 100"
  let ?R = "acquire_loop (''lock:'' @ k) ?tok ?px ?n ?d 0 ?w2"
  have eq: "acquireLock k opts w = ?R"
    by (rule acquireLock_valid[OF assms(1-3)])
  have px: "0 < ?px" using assms(3) by simp
  have w2: "store ?w2 = store w" "clock ?w2 = clock w" "trace ?w2 = trace (snd (getCacheClient w))"
    by (simp_all add: getCacheClient_fields)
  from acquire_loop_shape[OF px assms(4), of "''lock:'' @ k" ?tok ?d ?w2]
  obtain m where m: "m \<le> nat (?n - 0)"
    and s: "snd ?R = ?w2\<lparr>store := store (snd ?R), clock := clock ?w2 + int m * timeout ?d,
          trace := trace ?w2 @ concat (replicate m [Command (SET (''lock:'' @ k) ?tok ?px), Sleep ?d])
                      @ [Command (SET (''lock:'' @ k) ?tok ?px)]\<rparr>"
    and f: "\<forall>j<m. lookup (store ?w2) (clock ?w2 + int j * timeout ?d) (''lock:'' @ k) \<noteq> None"
    and r: "(if lookup (store ?w2) (clock ?w2 + int m * timeout ?d) (''lock:'' @ k) = None
      then fst ?R = Inr (Some ?tok) \<and>
           store (snd ?R) = (store ?w2)(''lock:'' @ k \<mapsto> (RString ?tok, Some (clock ?w2 + int m * timeout ?d + ?px)))
      else fst ?R = Inr None \<and> m = nat (?n - 0) \<and> store (snd ?R) = store ?w2)"
    by blast
  have ck: "clock (snd ?R) = clock w + int m * timeout ?d"
    by (subst s) (simp add: getCacheClient_fields)
  have tr: "trace (snd ?R) = trace (snd (getCacheClient w)) @
       concat (replicate m [Command (SET (''lock:'' @ k) ?tok ?px), Sleep ?d]) @
       [Command (SET (''lock:'' @ k) ?tok ?px)]"
    by (subst s) (simp add: getCacheClient_fields)
  show ?thesis
    unfolding eq
    apply (rule exI[of _ m])
    apply (intro conjI)
    subgoal using m by simp
    subgoal using f by (simp add: getCacheClient_fields)
    subgoal by (rule ck)
    subgoal by (rule tr)
    subgoal using r by (auto simp: getCacheClient_fields split: if_splits)
    done
qed

lemma acquireLock_no_retries:
  assumes "k \<noteq> []" "redisClient w \<noteq> None" "1 \<le> or_default (ttl opts) 10000"
    and "or_default (retries opts) 0 < 0"
  shows "acquireLock k opts w = (Inr None, (snd (getCacheClient w))\<lparr>jsDraws := jsDraws w + 1\<rparr>)"
  by (simp add: acquireLock_valid[OF assms(1-3)] acquire_loop_done[OF assms(4)])

lemma getCacheClient_eq:
  "redisClient w \<noteq> None \<Longrightarrow> getCacheClient w = (Inr (), snd (getCacheClient w))"
  by (auto simp: getCacheClient_def split: option.splits)

lemma getCacheClient_none:
  "redisClient w = None \<Longrightarrow>
   getCacheClient w = (Inl (Error ''Redis client not initialized. Call initConfig() first.''), w)"
  by (simp add: getCacheClient_def)

lemma releaseLock_eq:
  assumes "redisClient w \<noteq> None"
  shows "releaseLock k token w =
     (case release_script (store w) (clock w) (''lock:'' @ k) token of
        Inl e \<Rightarrow> (Inl e, issue (EVAL_release (''lock:'' @ k) token) (snd (getCacheClient w)))
      | Inr (r, st) \<Rightarrow>
          (Inr (r = 1), (issue (EVAL_release (''lock:'' @ k) token) (snd (getCacheClient w)))\<lparr>store := st\<rparr>))"
  by (subst releaseLock_def, subst getCacheClient_eq[OF assms])
     (simp add: Let_def issue_def getCacheClient_fields split: sum.splits prod.splits)

lemma extendLock_eq:
  assumes "redisClient w \<noteq> None"
  shows "extendLock k token ms w =
     (case extend_script (store w) (clock w) (''lock:'' @ k) token ms of
        Inl e \<Rightarrow> (Inl e, issue (EVAL_extend (''lock:'' @ k) token ms) (snd (getCacheClient w)))
      | Inr (r, st) \<Rightarrow>
          (Inr (r = 1), (issue (EVAL_extend (''lock:'' @ k) token ms) (snd (getCacheClient w)))\<lparr>store := st\<rparr>))"
  by (subst extendLock_def, subst getCacheClient_eq[OF assms])
     (simp add: Let_def issue_def getCacheClient_fields split: sum.splits prod.splits)

lemma resetRateLimit_eq:
  assumes "redisClient w \<noteq> None"
  shows "resetRateLimit identifier k w =
     (Inr (), (issue (DEL (''ratelimit:'' @ k @ '':'' @ identifier)) (snd (getCacheClient w)))
        \<lparr>store := (store w)(''ratelimit:'' @ k @ '':'' @ identifier := None)\<rparr>)"
  by (subst resetRateLimit_def, subst getCacheClient_eq[OF assms])
     (simp add: Let_def issue_def getCacheClient_fields redis_del_def)

lemma release_script_eq:
  assumes "redis_get st t lockKey = Inr cur"
  shows "release_script st t lockKey token =
     Inr (if cur = Some token then (1, st(lockKey := None)) else (0, st))"
  using assms
  by (auto simp: release_script_def redis_del_def redis_get_def
      split: option.splits rvalue.splits prod.splits)

lemma extend_script_eq:
  assumes "redis_get st t lockKey = Inr cur"
  shows "extend_script st t lockKey token ms =
     Inr (if cur = Some token then (1, st(lockKey \<mapsto> (RString token, Some (t + ms)))) else (0, st))"
  using assms
  by (auto simp: extend_script_def redis_pexpire_def redis_get_def
      split: option.splits rvalue.splits prod.splits)

lemma release_script_not_Error: "release_script st t lockKey token \<noteq> Inl (Error msg)"
  by (auto simp: release_script_def redis_get_def wrongtype_def
      split: option.splits rvalue.splits prod.splits sum.splits)

lemma extend_script_not_Error: "extend_script st t lockKey token ms \<noteq> Inl (Error msg)"
  by (auto simp: extend_script_def redis_get_def wrongtype_def
      split: option.splits rvalue.splits prod.splits sum.splits)

lemma ex_world_simps:
  "store ex_world = Map.empty" "clock ex_world = 1700000000000" "redisClient ex_world = Some ready"
  "mathRandom ex_world = (\<lambda>_. ''4fzzzxjylrx'')" "jsDraws ex_world = 0" "trace ex_world = []"
  "luaRandom ex_world = (\<lambda>_. ''0.84018771715471'')" "luaDraws ex_world = 0"
  by (simp_all add: ex_world_def)

lemma ex_held_simps:
  "store ex_held = [''lock:res'' \<mapsto> (RString ''1699999999000-k2j8x1w'', Some 1700000009000)]"
  "clock ex_held = 1700000000000" "redisClient ex_held = Some ready"
  "mathRandom ex_held = (\<lambda>_. ''4fzzzxjylrx'')" "jsDraws ex_held = 0" "trace ex_held = []"
  by (simp_all add: ex_held_def ex_world_def)

lemma ex_opts_simps:
  "or_default (ttl ex_opts) 10000 = 10000" "or_default (retries ex_opts) 0 = 2"
  "or_default (retryDelay ex_opts) 100 = 50"
  by (simp_all add: ex_opts_def or_default_def)

lemma getCacheClient_ready:
  "redisClient w = Some ready \<Longrightarrow> getCacheClient w = (Inr (), w)"
  by (simp add: getCacheClient_def)

section \<open>Facts about the rate-limit transaction\<close>

lemma ratelimit_script_accept:
  assumes "zset_at st t rkey = Some zs"
    and "int (length (filter (\<lambda>x. \<not> in_score_range 0 windowStart x) zs)) < lim"
  shows "ratelimit_script st t rkey now windowStart lim win rnd =
     Inr ((1, int (length (filter (\<lambda>x. \<not> in_score_range 0 windowStart x) zs))),
          st(rkey \<mapsto> (RZSet ((now, str_of_int now @ ''-'' @ rnd) #
                 filter (\<lambda>x. snd x \<noteq> str_of_int now @ ''-'' @ rnd)
                   (filter (\<lambda>x. \<not> in_score_range 0 windowStart x) zs)),
               Some (t + win * 1000))))"
proof (cases "lookup st t rkey")
  case None
  with assms have "zs = []" by (simp add: zset_at_def)
  with None assms(2) show ?thesis
    by (simp add: ratelimit_script_def redis_zremrangebyscore_def redis_zcard_def redis_zadd_def
        redis_expire_def redis_pexpire_def lookup_def live_def)
next
  case (Some ve)
  with assms(1) obtain e where l: "lookup st t rkey = Some (RZSet zs, e)"
    by (cases ve) (auto simp: zset_at_def split: rvalue.splits)
  then have raw: "st rkey = Some (RZSet zs, e)" and lv: "live t e"
    by (auto simp: lookup_def split: option.splits if_splits)
  show ?thesis
  proof (cases "filter (\<lambda>x. \<not> in_score_range 0 windowStart x) zs = []")
    case True
    then have "filter (\<lambda>x. \<not> in_score_range 0 windowStart x \<and> snd x \<noteq> str_of_int now @ ''-'' @ rnd) zs = []"
      by (auto simp: filter_empty_conv)
    with True l assms(2) raw lv show ?thesis
      by (simp add: ratelimit_script_def redis_zremrangebyscore_def redis_zcard_def redis_zadd_def
          redis_expire_def redis_pexpire_def lookup_def Let_def live_def)
  next
    case False
    with l assms(2) raw lv show ?thesis
      by (simp add: ratelimit_script_def redis_zremrangebyscore_def redis_zcard_def redis_zadd_def
          redis_expire_def redis_pexpire_def lookup_def Let_def live_def)
  qed
qed

lemma ratelimit_script_reject:
  assumes "zset_at st t rkey = Some zs"
    and "\<not> int (length (filter (\<lambda>x. \<not> in_score_range 0 windowStart x) zs)) < lim"
  shows "\<exists>st1. ratelimit_script st t rkey now windowStart lim win rnd =
     Inr ((0, int (length (filter (\<lambda>x. \<not> in_score_range 0 windowStart x) zs))), st1) \<and>
     zset_at st1 t rkey = Some (filter (\<lambda>x. \<not> in_score_range 0 windowStart x) zs)"
proof (cases "lookup st t rkey")
  case None
  with assms have "zs = []" by (simp add: zset_at_def)
  with None assms(2) show ?thesis
    by (simp add: ratelimit_script_def redis_zremrangebyscore_def redis_zcard_def zset_at_def)
next
  case (Some ve)
  with assms(1) obtain e where l: "lookup st t rkey = Some (RZSet zs, e)"
    by (cases ve) (auto simp: zset_at_def split: rvalue.splits)
  then have raw: "st rkey = Some (RZSet zs, e)" and lv: "live t e"
    by (auto simp: lookup_def split: option.splits if_splits)
  show ?thesis
  proof (cases "filter (\<lambda>x. \<not> in_score_range 0 windowStart x) zs = []")
    case True
    with assms(2) have "\<not> 0 < lim" by simp
    with True l raw lv show ?thesis
      by (simp add: ratelimit_script_def redis_zremrangebyscore_def redis_zcard_def zset_at_def
          lookup_def Let_def)
  next
    case False
    with l assms(2) raw lv show ?thesis
      by (simp add: ratelimit_script_def redis_zremrangebyscore_def redis_zcard_def zset_at_def
          lookup_def Let_def)
  qed
qed


lemma checkRateLimit_accept:
  assumes "identifier \<noteq> []" "key opts \<noteq> []" "1 \<le> limit opts" "1 \<le> window opts"
    and "redisClient w \<noteq> None"
    and "ratelimit_script (store w) (clock w) (''ratelimit:'' @ key opts @ '':'' @ identifier) (clock w)
           (clock w - window opts * 1000) (limit opts) (window opts) (luaRandom w (luaDraws w)) =
         Inr ((1, count), st)"
  shows "checkRateLimit identifier opts w =
     (Inr \<lparr>allowed = True, remaining = max 0 (limit opts - count - 1),
           resetAt = clock w + window opts * 1000, retryAfter = None\<rparr>,
      (issue (EVAL_ratelimit (''ratelimit:'' @ key opts @ '':'' @ identifier) (clock w)
                (clock w - window opts * 1000) (limit opts) (window opts)) (snd (getCacheClient w)))
        \<lparr>store := st, luaDraws := luaDraws w + 1\<rparr>)"
  using assms
  by (simp add: checkRateLimit_def Let_def case_prod_beta getCacheClient_ok getCacheClient_fields issue_def
      split: option.splits)



lemma resetRateLimit_world:
  assumes "redisClient w \<noteq> None"
  shows "redisClient (snd (resetRateLimit identifier k w)) \<noteq> None"
    and "clock (snd (resetRateLimit identifier k w)) = clock w"
    and "luaRandom (snd (resetRateLimit identifier k w)) = luaRandom w"
    and "luaDraws (snd (resetRateLimit identifier k w)) = luaDraws w"
    and "store (snd (resetRateLimit identifier k w)) = (store w)(''ratelimit:'' @ k @ '':'' @ identifier := None)"
  using getCacheClient_client[OF assms]
  by (simp_all add: resetRateLimit_eq[OF assms] issue_def getCacheClient_fields)

lemma ex_window_simps:
  "store ex_window = [''ratelimit:api:u'' \<mapsto>
        (RZSet [(1699999999500, ''1699999999500-0.84018771715471''),
                (1699999999000, ''1699999999000-0.84018771715471'')],
         Some 1700000000500)]"
  "clock ex_window = 1700000000000" "redisClient ex_window = Some ready"
  "luaRandom ex_window = (\<lambda>_. ''0.84018771715471'')" "luaDraws ex_window = 0" "trace ex_window = []"
  by (simp_all add: ex_window_def ex_world_def)

lemma ex_window_zset:
  "zset_at (store ex_window) (clock ex_window) ''ratelimit:api:u'' =
     Some [(1699999999500, ''1699999999500-0.84018771715471''),
           (1699999999000, ''1699999999000-0.84018771715471'')]"
  by (simp add: zset_at_def lookup_def live_def ex_window_simps)

text \<open>
  The transaction writes the clock reading as the timestamp of the entry it adds, so a
  window whose timestamps are not negative stays so while the clock is not negative.
\<close>

lemma ratelimit_script_timestamps:
  assumes "zset_at st t rkey = Some zs" and "\<forall>e \<in> set zs. 0 \<le> fst e" and "0 \<le> now" and "0 < win"
    and "ratelimit_script st t rkey now windowStart lim win rnd = Inr (r, st')"
  shows "\<exists>zs'. zset_at st' t rkey = Some zs' \<and> (\<forall>e \<in> set zs'. 0 \<le> fst e)"
proof (cases "int (length (filter (\<lambda>x. \<not> in_score_range 0 windowStart x) zs)) < lim")
  case True
  from ratelimit_script_accept[OF assms(1) True, of now win rnd] assms(5)
  have "st' = st(rkey \<mapsto> (RZSet ((now, str_of_int now @ ''-'' @ rnd) #
                 filter (\<lambda>x. snd x \<noteq> str_of_int now @ ''-'' @ rnd)
                   (filter (\<lambda>x. \<not> in_score_range 0 windowStart x) zs)),
               Some (t + win * 1000)))"
    by simp
  then show ?thesis
    using assms(2,3,4) by (simp add: zset_at_def lookup_def live_def)
next
  case False
  from ratelimit_script_reject[OF assms(1) False, of now win rnd] assms(5)
  have "zset_at st' t rkey = Some (filter (\<lambda>x. \<not> in_score_range 0 windowStart x) zs)"
    by auto
  then show ?thesis using assms(2) by simp
qed

section \<open>Facts about acquisition and release\<close>

lemma acquireLock_invalid:
  "k = [] \<Longrightarrow> fst (acquireLock k opts w) = Inl (Error ''Lock key must be a non-empty string'')"
  "k \<noteq> [] \<Longrightarrow> redisClient w = None \<Longrightarrow>
     fst (acquireLock k opts w) = Inl (Error ''Redis client not initialized. Call initConfig() first.'')"
  "k \<noteq> [] \<Longrightarrow> redisClient w \<noteq> None \<Longrightarrow> or_default (ttl opts) 10000 < 1 \<Longrightarrow>
     acquireLock k opts w =
       (Inl (Error ''Lock TTL must be positive''), (snd (getCacheClient w))\<lparr>jsDraws := jsDraws w + 1\<rparr>)"
  by (simp_all add: acquireLock_def Let_def case_prod_beta getCacheClient_ok getCacheClient_fields
      getCacheClient_none)

lemma acquireLock_token:
  assumes "fst (acquireLock k opts w) = Inr (Some tok)"
  shows "tok = str_of_int (clock w) @ ''-'' @ mathRandom w (jsDraws w)"
proof -
  have k: "k \<noteq> []" using assms acquireLock_invalid(1)[of k opts w] by auto
  have c: "redisClient w \<noteq> None" using assms k acquireLock_invalid(2)[of k w opts] by auto
  have t: "1 \<le> or_default (ttl opts) 10000"
    using assms acquireLock_invalid(3)[OF k c, of opts] by (cases "or_default (ttl opts) 10000 < 1") auto
  show ?thesis
  proof (cases "0 \<le> or_default (retries opts) 0")
    case True
    from acquireLock_shape[OF k c t True] assms show ?thesis
      by (auto split: if_splits)
  next
    case False
    then show ?thesis using acquireLock_no_retries[OF k c t] assms by simp
  qed
qed

lemma releaseLock_not_held:
  assumes "fst (releaseLock k token w) = Inr b"
  shows "redis_get (store (snd (releaseLock k token w))) (clock (snd (releaseLock k token w)))
           (''lock:'' @ k) \<noteq> Inr (Some token)"
proof -
  have c: "redisClient w \<noteq> None"
  proof
    assume "redisClient w = None"
    then have "fst (releaseLock k token w) = Inl (Error ''Redis client not initialized. Call initConfig() first.'')"
      by (simp add: releaseLock_def getCacheClient_none)
    with assms show False by simp
  qed
  show ?thesis
  proof (cases "redis_get (store w) (clock w) (''lock:'' @ k)")
    case (Inl e)
    then have "release_script (store w) (clock w) (''lock:'' @ k) token = Inl e"
      by (simp add: release_script_def)
    with assms show ?thesis unfolding releaseLock_eq[OF c] by simp
  next
    case (Inr cur)
    have ck: "clock (snd (releaseLock k token w)) = clock w"
      and st: "store (snd (releaseLock k token w)) =
         (if cur = Some token then (store w)(''lock:'' @ k := None) else store w)"
      unfolding releaseLock_eq[OF c] release_script_eq[OF Inr]
      by (simp_all add: issue_def getCacheClient_fields)
    show ?thesis
    proof (cases "cur = Some token")
      case True
      have "redis_get ((store w)(''lock:'' @ k := None)) (clock w) (''lock:'' @ k) = Inr None"
        by (simp add: redis_get_def lookup_def)
      then show ?thesis unfolding ck st using True by simp
    next
      case False
      then show ?thesis unfolding ck st using Inr by simp
    qed
  qed
qed

lemma ex_token: "str_of_int (clock ex_world) @ ''-'' @ mathRandom ex_world (jsDraws ex_world) =
    ''1700000000000-4fzzzxjylrx''"
  by (simp add: ex_world_simps str_of_int_def dec.simps)

lemma acquireLock_ex_defaults:
  "acquireLock ''res'' ex_defaults ex_world =
     (Inr (Some ''1700000000000-4fzzzxjylrx''),
      ex_world\<lparr>jsDraws := 1,
        trace := [Command (SET ''lock:res'' ''1700000000000-4fzzzxjylrx'' 10000)],
        store := [''lock:res'' \<mapsto> (RString ''1700000000000-4fzzzxjylrx'', Some 1700000010000)]\<rparr>)"
proof -
  have d: "or_default (ttl ex_defaults) 10000 = 10000" "or_default (retries ex_defaults) 0 = 0"
    "or_default (retryDelay ex_defaults) 100 = 100"
    by (simp_all add: ex_defaults_def or_default_def)
  have v: "acquireLock ''res'' ex_defaults ex_world =
     acquire_loop (''lock:'' @ ''res'') (str_of_int (clock ex_world) @ ''-'' @ mathRandom ex_world (jsDraws ex_world))
       10000 0 100 0 ((snd (getCacheClient ex_world))\<lparr>jsDraws := jsDraws ex_world + 1\<rparr>)"
    using acquireLock_valid[of "''res''" ex_world ex_defaults] unfolding d
    by (simp add: ex_world_simps)
  show ?thesis
    unfolding v ex_token
    by (subst acquire_loop_success)
       (simp_all add: getCacheClient_ready ex_world_simps lookup_def issue_def ex_world_def)
qed

lemma acquireLock_rejects_negative_ttl:
  assumes "k \<noteq> []" and "redisClient w \<noteq> None" and "ttl opts = Some t" and "t < 0"
  shows "fst (acquireLock k opts w) = Inl (Error ''Lock TTL must be positive'') \<and>
         trace (snd (acquireLock k opts w)) = trace (snd (getCacheClient w)) \<and>
         store (snd (acquireLock k opts w)) = store w"
proof -
  have "or_default (ttl opts) 10000 < 1" using assms(3,4) by (simp add: or_default_def)
  from acquireLock_invalid(3)[OF assms(1,2) this] show ?thesis
    by (simp add: getCacheClient_fields)
qed




lemma retryDelay_zero_takes_default:
  "retryDelay opts = Some 0 \<Longrightarrow> or_default (retryDelay opts) 100 = 100"
  by (simp add: or_default_def)



section \<open>The claims\<close>

text \<open>
  C1. Mutual exclusion. While a key holds a lock that stays unexpired through the last
  attempt, a valid \<open>acquireLock\<close> on it grants nothing: every set-if-absent fails, the call
  returns null and the store is as it was. And whenever \<open>acquireLock\<close> returns a token, the
  key was absent or expired at the moment of the grant, and afterwards it holds exactly
  that token under the requested TTL.
\<close>

theorem acquireLock_mutual_exclusion:
  assumes "k \<noteq> []" and "redisClient w \<noteq> None" and "1 \<le> or_default (ttl opts) 10000"
  shows "(store w (''lock:'' @ k) = Some (v, e) \<and>
          live (clock w + max 0 (or_default (retries opts) 0) * timeout (or_default (retryDelay opts) 100)) e
          \<longrightarrow> fst (acquireLock k opts w) = Inr None \<and> store (snd (acquireLock k opts w)) = store w)
       \<and> (fst (acquireLock k opts w) = Inr (Some tok)
          \<longrightarrow> lookup (store w) (clock (snd (acquireLock k opts w))) (''lock:'' @ k) = None
            \<and> store (snd (acquireLock k opts w)) =
                (store w)(''lock:'' @ k \<mapsto>
                   (RString tok, Some (clock (snd (acquireLock k opts w)) + or_default (ttl opts) 10000))))"
proof (cases "0 \<le> or_default (retries opts) 0")
  case False
  then have "acquireLock k opts w = (Inr None, (snd (getCacheClient w))\<lparr>jsDraws := jsDraws w + 1\<rparr>)"
    using acquireLock_no_retries[OF assms] by simp
  then show ?thesis by (simp add: getCacheClient_fields)
next
  case True
  let ?n = "or_default (retries opts) 0"
  let ?T = "timeout (or_default (retryDelay opts) 100)"
  let ?tok = "str_of_int (clock w) @ ''-'' @ mathRandom w (jsDraws w)"
  from acquireLock_shape[OF assms True]
  obtain m where m: "m \<le> nat ?n"
    and ck: "clock (snd (acquireLock k opts w)) = clock w + int m * ?T"
    and r: "(if lookup (store w) (clock w + int m * ?T) (''lock:'' @ k) = None
      then fst (acquireLock k opts w) = Inr (Some ?tok) \<and>
           store (snd (acquireLock k opts w)) =
             (store w)(''lock:'' @ k \<mapsto> (RString ?tok, Some (clock w + int m * ?T + or_default (ttl opts) 10000)))
      else fst (acquireLock k opts w) = Inr None \<and> m = nat ?n \<and>
           store (snd (acquireLock k opts w)) = store w)"
    by blast
  have T: "0 \<le> ?T" using timeout_pos[of "or_default (retryDelay opts) 100"] by simp
  have le: "clock w + int m * ?T \<le> clock w + max 0 ?n * ?T"
  proof -
    have "int m \<le> max 0 ?n" using m True by simp
    then have "int m * ?T \<le> max 0 ?n * ?T" using T by (rule mult_right_mono)
    then show ?thesis by simp
  qed
  have A: "fst (acquireLock k opts w) = Inr None \<and> store (snd (acquireLock k opts w)) = store w"
    if h: "store w (''lock:'' @ k) = Some (v, e)"
      and l: "live (clock w + max 0 ?n * ?T) e"
  proof -
    have "live (clock w + int m * ?T) e" using l le by (rule live_mono)
    then have "lookup (store w) (clock w + int m * ?T) (''lock:'' @ k) \<noteq> None"
      using h by (simp add: lookup_def)
    with r show ?thesis by simp
  qed
  have B: "lookup (store w) (clock (snd (acquireLock k opts w))) (''lock:'' @ k) = None
            \<and> store (snd (acquireLock k opts w)) =
                (store w)(''lock:'' @ k \<mapsto>
                   (RString tok, Some (clock (snd (acquireLock k opts w)) + or_default (ttl opts) 10000)))"
    if g: "fst (acquireLock k opts w) = Inr (Some tok)"
  proof (cases "lookup (store w) (clock w + int m * ?T) (''lock:'' @ k) = None")
    case True
    with r g have "tok = ?tok" by simp
    with r True show ?thesis unfolding ck by simp
  next
    case False
    with r g show ?thesis by simp
  qed
  from A B show ?thesis by blast
qed

theorem acquireLock_mutual_exclusion_witness:
  "''res'' \<noteq> [] \<and> redisClient ex_held \<noteq> None \<and> 1 \<le> or_default (ttl ex_opts) 10000 \<and>
   store ex_held ''lock:res'' = Some (RString ''1699999999000-k2j8x1w'', Some 1700000009000) \<and>
   live (clock ex_held + max 0 (or_default (retries ex_opts) 0) * timeout (or_default (retryDelay ex_opts) 100))
     (Some 1700000009000) \<and>
   fst (acquireLock ''res'' ex_opts ex_held) = Inr None \<and>
   store (snd (acquireLock ''res'' ex_opts ex_held)) = store ex_held \<and>
   redisClient ex_world \<noteq> None \<and>
   fst (acquireLock ''res'' ex_opts ex_world) = Inr (Some ''1700000000000-4fzzzxjylrx'') \<and>
   lookup (store ex_world) (clock (snd (acquireLock ''res'' ex_opts ex_world))) ''lock:res'' = None \<and>
   store (snd (acquireLock ''res'' ex_opts ex_world)) =
     (store ex_world)(''lock:res'' \<mapsto> (RString ''1700000000000-4fzzzxjylrx'',
        Some (clock (snd (acquireLock ''res'' ex_opts ex_world)) + 10000)))"
proof -
  have k: "''res'' \<noteq> []" by simp
  have c1: "redisClient ex_held \<noteq> None" and c2: "redisClient ex_world \<noteq> None"
    by (simp_all add: ex_held_simps ex_world_simps)
  have t: "1 \<le> or_default (ttl ex_opts) 10000" by (simp add: ex_opts_simps)
  have h: "store ex_held (''lock:'' @ ''res'') = Some (RString ''1699999999000-k2j8x1w'', Some 1700000009000)"
    by (simp add: ex_held_simps)
  have l: "live (clock ex_held + max 0 (or_default (retries ex_opts) 0) * timeout (or_default (retryDelay ex_opts) 100))
     (Some 1700000009000)"
    by (simp add: ex_held_simps ex_opts_simps live_def timeout_def)
  have g: "fst (acquireLock ''res'' ex_opts ex_world) = Inr (Some ''1700000000000-4fzzzxjylrx'')"
    by (simp add: acquireLock_valid acquire_loop_success ex_world_simps ex_opts_simps
        str_of_int_def dec.simps lookup_def getCacheClient_ready)
  from acquireLock_mutual_exclusion[OF k c1 t, where v = "RString ''1699999999000-k2j8x1w''"
      and e = "Some 1700000009000"] h l
  have A: "fst (acquireLock ''res'' ex_opts ex_held) = Inr None \<and>
           store (snd (acquireLock ''res'' ex_opts ex_held)) = store ex_held"
    by blast
  from acquireLock_mutual_exclusion[OF k c2 t, where tok = "''1700000000000-4fzzzxjylrx''"] g
  have B: "lookup (store ex_world) (clock (snd (acquireLock ''res'' ex_opts ex_world))) (''lock:'' @ ''res'') = None \<and>
     store (snd (acquireLock ''res'' ex_opts ex_world)) =
     (store ex_world)(''lock:'' @ ''res'' \<mapsto> (RString ''1700000000000-4fzzzxjylrx'',
        Some (clock (snd (acquireLock ''res'' ex_opts ex_world)) + or_default (ttl ex_opts) 10000)))"
    by blast
  show ?thesis
    using k c1 c2 t h l g A B by (simp add: ex_opts_simps)
qed

text \<open>
  C2. The claim asks for a token drawn from a cryptographically strong source of at least
  128 bits. The code builds the token from the clock and one \<open>Math.random()\<close>: at the
  clock reading 1700000000000 and the draw \<open>4fzzzxjylrx\<close> the token is the two joined by
  a hyphen.
\<close>

theorem token_from_clock_and_mathRandom:
  "clock ex_world = 1700000000000 \<and> mathRandom ex_world (jsDraws ex_world) = ''4fzzzxjylrx'' \<and>
   fst (acquireLock ''res'' ex_defaults ex_world) = Inr (Some ''1700000000000-4fzzzxjylrx'')"
  by (simp add: acquireLock_ex_defaults ex_world_simps)



text \<open>
  C4, as amended. Before it counts, the transaction of \<open>checkRateLimit\<close> removes exactly the
  entries whose timestamp lies in \<open>[0, now - window * 1000]\<close>, both bounds included: the
  count it replies is the number of the other entries, and these are what the window holds
  afterwards (with the new entry in front when the request is accepted). So an entry
  stamped exactly \<open>now - window * 1000\<close> is pruned, and every entry stamped later than that
  survives and is counted.
\<close>

theorem ratelimit_script_prunes:
  fixes zs :: "(int \<times> string) list" and now win :: int
  defines "surv \<equiv> filter (\<lambda>e. \<not> (0 \<le> fst e \<and> fst e \<le> now - win * 1000)) zs"
  assumes "zset_at st now rkey = Some zs" and "1 \<le> win"
  shows "\<exists>st'. ratelimit_script st now rkey now (now - win * 1000) lim win rnd =
            Inr ((if int (length surv) < lim then 1 else 0, int (length surv)), st') \<and>
          zset_at st' now rkey =
            Some (if int (length surv) < lim
                  then (now, str_of_int now @ ''-'' @ rnd) #
                       filter (\<lambda>e. snd e \<noteq> str_of_int now @ ''-'' @ rnd) surv
                  else surv)"
proof -
  have surv: "surv = filter (\<lambda>x. \<not> in_score_range 0 (now - win * 1000) x) zs"
    by (simp add: surv_def in_score_range_def)
  show ?thesis
  proof (cases "int (length surv) < lim")
    case True
    then have c: "int (length (filter (\<lambda>x. \<not> in_score_range 0 (now - win * 1000) x) zs)) < lim"
      by (simp add: surv)
    show ?thesis
      using True assms(3)
      unfolding surv ratelimit_script_accept[OF assms(2) c]
      by (simp add: zset_at_def lookup_def live_def)
  next
    case False
    then have c: "\<not> int (length (filter (\<lambda>x. \<not> in_score_range 0 (now - win * 1000) x) zs)) < lim"
      by (simp add: surv)
    from ratelimit_script_reject[OF assms(2) c, of now win rnd] False
    show ?thesis unfolding surv by simp
  qed
qed

theorem ratelimit_script_prunes_witness:
  "zset_at (store ex_window) 1700000000000 ''ratelimit:api:u'' =
     Some [(1699999999500, ''1699999999500-0.84018771715471''),
           (1699999999000, ''1699999999000-0.84018771715471'')] \<and> (1::int) \<le> 1 \<and>
   (\<exists>st'. ratelimit_script (store ex_window) 1700000000000 ''ratelimit:api:u'' 1700000000000
              (1700000000000 - 1 * 1000) 1 1 ''0.84018771715471'' = Inr ((0, 1), st') \<and>
           zset_at st' 1700000000000 ''ratelimit:api:u'' =
             Some [(1699999999500, ''1699999999500-0.84018771715471'')])"
proof -
  have z: "zset_at (store ex_window) 1700000000000 ''ratelimit:api:u'' =
     Some [(1699999999500, ''1699999999500-0.84018771715471''),
           (1699999999000, ''1699999999000-0.84018771715471'')]"
    using ex_window_zset by (simp add: ex_window_simps)
  have w: "(1::int) \<le> 1" by simp
  show ?thesis
    using z ratelimit_script_prunes[OF z w, of 1 "''0.84018771715471''"] by simp
qed

text \<open>
  The claim as stated fails at the lower end of its closed interval: with \<open>window = 1\<close> an
  entry stamped exactly \<open>now - 1000\<close> is in \<open>[now - window * 1000, now]\<close>, yet the transaction
  removes it and counts one entry, not two, so a request that the limit of two would
  reject is accepted.
\<close>

theorem closed_window_start_counterexample:
  "clock ex_window - window ex_limit * 1000 \<le> 1699999999000 \<and> 1699999999000 \<le> clock ex_window \<and>
   zset_at (store ex_window) (clock ex_window) ''ratelimit:api:u'' =
     Some [(1699999999500, ''1699999999500-0.84018771715471''),
           (1699999999000, ''1699999999000-0.84018771715471'')] \<and>
   ratelimit_script (store ex_window) (clock ex_window) ''ratelimit:api:u'' (clock ex_window)
       (clock ex_window - window ex_limit * 1000) (limit ex_limit) (window ex_limit) ''0.84018771715471'' =
     Inr ((1, 1),
          [''ratelimit:api:u'' \<mapsto>
             (RZSet [(1700000000000, ''1700000000000-0.84018771715471''),
                     (1699999999500, ''1699999999500-0.84018771715471'')],
              Some 1700000001000)]) \<and>
   fst (checkRateLimit ''u'' ex_limit ex_window) =
     Inr \<lparr>allowed = True, remaining = 0, resetAt = 1700000001000, retryAfter = None\<rparr>"
proof -
  have s: "ratelimit_script (store ex_window) (clock ex_window) ''ratelimit:api:u'' (clock ex_window)
       (clock ex_window - window ex_limit * 1000) (limit ex_limit) (window ex_limit) ''0.84018771715471'' =
     Inr ((1, 1),
          [''ratelimit:api:u'' \<mapsto>
             (RZSet [(1700000000000, ''1700000000000-0.84018771715471''),
                     (1699999999500, ''1699999999500-0.84018771715471'')],
              Some 1700000001000)])"
    by (simp add: ratelimit_script_def redis_zremrangebyscore_def redis_zcard_def redis_zadd_def
        redis_expire_def redis_pexpire_def lookup_def live_def in_score_range_def Let_def
        ex_window_simps ex_limit_def str_of_int_def dec.simps)
  have r: "fst (checkRateLimit ''u'' ex_limit ex_window) =
     Inr \<lparr>allowed = True, remaining = 0, resetAt = 1700000001000, retryAfter = None\<rparr>"
    using s
    by (simp add: checkRateLimit_def Let_def getCacheClient_ready issue_def ex_window_simps ex_limit_def)
  show ?thesis
    using s r ex_window_zset by (simp add: ex_window_simps ex_limit_def)
qed

text \<open>
  C5. Ownership on release and extension. Let \<open>cur\<close> be the value stored for the lock
  (\<open>None\<close> when there is no unexpired lock). When \<open>cur\<close> is not the presented token,
  \<open>releaseLock\<close> and \<open>extendLock\<close> return false without throwing and leave the store as it
  was; when it is, \<open>releaseLock\<close> deletes the lock and returns true, and \<open>extendLock\<close> sets
  its expiry to the new TTL from now and returns true.
\<close>

theorem release_extend_ownership:
  assumes "redisClient w \<noteq> None"
    and "redis_get (store w) (clock w) (''lock:'' @ k) = Inr cur"
  shows "fst (releaseLock k token w) = Inr (cur = Some token) \<and>
         store (snd (releaseLock k token w)) =
           (if cur = Some token then (store w)(''lock:'' @ k := None) else store w) \<and>
         fst (extendLock k token ms w) = Inr (cur = Some token) \<and>
         store (snd (extendLock k token ms w)) =
           (if cur = Some token
            then (store w)(''lock:'' @ k \<mapsto> (RString token, Some (clock w + ms)))
            else store w)"
  unfolding releaseLock_eq[OF assms(1)] extendLock_eq[OF assms(1)]
      release_script_eq[OF assms(2)] extend_script_eq[OF assms(2)]
  by (simp add: issue_def getCacheClient_fields)

theorem release_extend_ownership_witness:
  "redisClient ex_held \<noteq> None \<and>
   redis_get (store ex_held) (clock ex_held) ''lock:res'' = Inr (Some ''1699999999000-k2j8x1w'') \<and>
   fst (releaseLock ''res'' ''1700000000000-4fzzzxjylrx'' ex_held) = Inr False \<and>
   store (snd (releaseLock ''res'' ''1700000000000-4fzzzxjylrx'' ex_held)) = store ex_held \<and>
   fst (extendLock ''res'' ''1700000000000-4fzzzxjylrx'' 30000 ex_held) = Inr False \<and>
   store (snd (extendLock ''res'' ''1700000000000-4fzzzxjylrx'' 30000 ex_held)) = store ex_held \<and>
   fst (releaseLock ''res'' ''1699999999000-k2j8x1w'' ex_held) = Inr True \<and>
   store (snd (releaseLock ''res'' ''1699999999000-k2j8x1w'' ex_held)) = (store ex_held)(''lock:res'' := None) \<and>
   fst (extendLock ''res'' ''1699999999000-k2j8x1w'' 30000 ex_held) = Inr True \<and>
   store (snd (extendLock ''res'' ''1699999999000-k2j8x1w'' 30000 ex_held)) =
     (store ex_held)(''lock:res'' \<mapsto> (RString ''1699999999000-k2j8x1w'', Some 1700000030000))"
proof -
  have c: "redisClient ex_held \<noteq> None" by (simp add: ex_held_simps)
  have g: "redis_get (store ex_held) (clock ex_held) (''lock:'' @ ''res'') = Inr (Some ''1699999999000-k2j8x1w'')"
    by (simp add: redis_get_def lookup_def live_def ex_held_simps)
  show ?thesis
    using c g
      release_extend_ownership[OF c g, of "''1700000000000-4fzzzxjylrx''" 30000]
      release_extend_ownership[OF c g, of "''1699999999000-k2j8x1w''" 30000]
    by (simp add: ex_held_simps)
qed

text \<open>
  C6. \<open>withLock\<close>. When the acquisition returns a token, \<open>fn\<close> runs once, in the world the
  acquisition left, and \<open>releaseLock\<close> runs in the world \<open>fn\<close> left, whether \<open>fn\<close> returned or
  threw: the outcome of \<open>fn\<close> is the outcome of \<open>withLock\<close>, and afterwards the key no longer
  holds the token (an error of the release itself is raised in place of the outcome).
  When the acquisition returns null, \<open>withLock\<close> raises the acquisition failure in the world
  the acquisition left, whatever \<open>fn\<close> is.
\<close>

theorem withLock_scoped:
  "(fst (acquireLock k opts w) = Inr (Some token) \<and>
    fst (releaseLock k token (snd (fn (snd (acquireLock k opts w))))) = Inr b
    \<longrightarrow> withLock k fn opts w =
          (fst (fn (snd (acquireLock k opts w))),
           snd (releaseLock k token (snd (fn (snd (acquireLock k opts w)))))) \<and>
        redis_get (store (snd (withLock k fn opts w))) (clock (snd (withLock k fn opts w)))
          (''lock:'' @ k) \<noteq> Inr (Some token))
   \<and> (fst (acquireLock k opts w) = Inr (Some token) \<and>
    fst (releaseLock k token (snd (fn (snd (acquireLock k opts w))))) = Inl e
    \<longrightarrow> withLock k fn opts w =
          (Inl e, snd (releaseLock k token (snd (fn (snd (acquireLock k opts w)))))))
   \<and> (fst (acquireLock k opts w) = Inr None
    \<longrightarrow> withLock k fn opts w =
          (Inl (Error (''Failed to acquire lock: '' @ k)), snd (acquireLock k opts w)))"
proof -
  let ?w1 = "snd (acquireLock k opts w)"
  let ?rel = "releaseLock k token (snd (fn ?w1))"
  have ok: "withLock k fn opts w = (fst (fn ?w1), snd ?rel)"
    if a: "fst (acquireLock k opts w) = Inr (Some token)" and r: "fst ?rel = Inr b"
  proof -
    have ne: "token \<noteq> []" using acquireLock_token[OF a] by simp
    show ?thesis
      using a r ne by (simp add: withLock_def case_prod_beta)
  qed
  have free: "redis_get (store (snd (withLock k fn opts w))) (clock (snd (withLock k fn opts w)))
          (''lock:'' @ k) \<noteq> Inr (Some token)"
    if a: "fst (acquireLock k opts w) = Inr (Some token)" and r: "fst ?rel = Inr b"
    unfolding ok[OF a r] using releaseLock_not_held[OF r] by simp
  have bad: "withLock k fn opts w = (Inl e, snd ?rel)"
    if a: "fst (acquireLock k opts w) = Inr (Some token)" and r: "fst ?rel = Inl e"
  proof -
    have ne: "token \<noteq> []" using acquireLock_token[OF a] by simp
    show ?thesis
      using a r ne by (simp add: withLock_def case_prod_beta)
  qed
  have none: "withLock k fn opts w = (Inl (Error (''Failed to acquire lock: '' @ k)), ?w1)"
    if a: "fst (acquireLock k opts w) = Inr None"
    using a by (simp add: withLock_def case_prod_beta)
  from ok free bad none show ?thesis by blast
qed

theorem withLock_scoped_witness:
  "fst (acquireLock ''res'' ex_defaults ex_world) = Inr (Some ''1700000000000-4fzzzxjylrx'') \<and>
   fst (withLock ''res'' ex_fn_throw ex_defaults ex_world) = Inl (Error ''boom'') \<and>
   trace (snd (withLock ''res'' ex_fn_throw ex_defaults ex_world)) =
     [Command (SET ''lock:res'' ''1700000000000-4fzzzxjylrx'' 10000), Sleep 20,
      Command (EVAL_release ''lock:res'' ''1700000000000-4fzzzxjylrx'')] \<and>
   store (snd (withLock ''res'' ex_fn_throw ex_defaults ex_world)) ''lock:res'' = None \<and>
   fst (withLock ''res'' ex_fn_ok ex_defaults ex_world) = Inr 42 \<and>
   store (snd (withLock ''res'' ex_fn_ok ex_defaults ex_world)) ''lock:res'' = None \<and>
   fst (acquireLock ''res'' ex_opts ex_held) = Inr None \<and>
   withLock ''res'' ex_fn_ok ex_opts ex_held =
     (Inl (Error ''Failed to acquire lock: res''), snd (acquireLock ''res'' ex_opts ex_held))"
proof -
  let ?tok = "''1700000000000-4fzzzxjylrx''"
  let ?w1 = "snd (acquireLock ''res'' ex_defaults ex_world)"
  have a: "fst (acquireLock ''res'' ex_defaults ex_world) = Inr (Some ?tok)"
    by (simp add: acquireLock_ex_defaults)
  have w1: "?w1 = ex_world\<lparr>jsDraws := 1,
        trace := [Command (SET ''lock:res'' ?tok 10000)],
        store := [''lock:res'' \<mapsto> (RString ?tok, Some 1700000010000)]\<rparr>"
    by (simp add: acquireLock_ex_defaults)
  have rel: "releaseLock ''res'' ?tok (sleep 20 ?w1) =
     (Inr True, ex_world\<lparr>jsDraws := 1, clock := 1700000000020,
        trace := [Command (SET ''lock:res'' ?tok 10000), Sleep 20, Command (EVAL_release ''lock:res'' ?tok)],
        store := Map.empty\<rparr>)"
    unfolding w1
    by (simp add: releaseLock_def getCacheClient_def release_script_def redis_get_def redis_del_def
        lookup_def live_def issue_def sleep_def timeout_def Let_def ex_world_def)
  have r1: "fst (releaseLock ''res'' ?tok (snd (ex_fn_throw ?w1))) = Inr True"
    and r2: "fst (releaseLock ''res'' ?tok (snd (ex_fn_ok ?w1))) = Inr True"
    by (simp_all add: ex_fn_throw_def ex_fn_ok_def rel)
  have t: "withLock ''res'' ex_fn_throw ex_defaults ex_world =
      (fst (ex_fn_throw ?w1), snd (releaseLock ''res'' ?tok (snd (ex_fn_throw ?w1))))"
    using withLock_scoped[of "''res''" ex_defaults ex_world ?tok ex_fn_throw True] a r1 by blast
  have o: "withLock ''res'' ex_fn_ok ex_defaults ex_world =
      (fst (ex_fn_ok ?w1), snd (releaseLock ''res'' ?tok (snd (ex_fn_ok ?w1))))"
    using withLock_scoped[of "''res''" ex_defaults ex_world ?tok ex_fn_ok True] a r2 by blast
  have n: "fst (acquireLock ''res'' ex_opts ex_held) = Inr None"
    by (subst acquireLock_valid)
       (simp_all add: ex_held_simps ex_opts_simps acquire_loop_retry acquire_loop_last
         getCacheClient_ready lookup_def live_def sleep_def issue_def timeout_def)
  have f: "withLock ''res'' ex_fn_ok ex_opts ex_held =
     (Inl (Error (''Failed to acquire lock: '' @ ''res'')), snd (acquireLock ''res'' ex_opts ex_held))"
    using withLock_scoped[of "''res''" ex_opts ex_held _ ex_fn_ok] n by blast
  show ?thesis
    using a n f unfolding t o
    by (simp add: ex_fn_throw_def ex_fn_ok_def rel)
qed

text \<open>
  C7. The claim asks for a validation error on every \<open>options.ttl\<close> below 1, zero included.
  With \<open>ttl = 0\<close> the code takes the default of 10000 ms instead, sends its command and
  returns a token.
\<close>

theorem zero_ttl_accepted:
  "ttl ex_zero_ttl = Some 0 \<and>
   acquireLock ''res'' ex_zero_ttl ex_world =
     (Inr (Some ''1700000000000-4fzzzxjylrx''),
      ex_world\<lparr>jsDraws := 1,
        trace := [Command (SET ''lock:res'' ''1700000000000-4fzzzxjylrx'' 10000)],
        store := [''lock:res'' \<mapsto> (RString ''1700000000000-4fzzzxjylrx'', Some 1700000010000)]\<rparr>)"
proof -
  have d: "or_default (ttl ex_zero_ttl) 10000 = 10000" "or_default (retries ex_zero_ttl) 0 = 0"
    "or_default (retryDelay ex_zero_ttl) 100 = 100"
    by (simp_all add: ex_zero_ttl_def or_default_def)
  have v: "acquireLock ''res'' ex_zero_ttl ex_world =
     acquire_loop (''lock:'' @ ''res'') (str_of_int (clock ex_world) @ ''-'' @ mathRandom ex_world (jsDraws ex_world))
       10000 0 100 0 ((snd (getCacheClient ex_world))\<lparr>jsDraws := jsDraws ex_world + 1\<rparr>)"
    unfolding acquireLock_def Let_def d
    by (simp add: getCacheClient_ready ex_world_simps)
  have "acquireLock ''res'' ex_zero_ttl ex_world =
     (Inr (Some ''1700000000000-4fzzzxjylrx''),
      ex_world\<lparr>jsDraws := 1,
        trace := [Command (SET ''lock:res'' ''1700000000000-4fzzzxjylrx'' 10000)],
        store := [''lock:res'' \<mapsto> (RString ''1700000000000-4fzzzxjylrx'', Some 1700000010000)]\<rparr>)"
    unfolding v ex_token
    by (subst acquire_loop_success)
       (simp_all add: getCacheClient_ready ex_world_simps lookup_def issue_def ex_world_def)
  then show ?thesis by (simp add: ex_zero_ttl_def)
qed



text \<open>
  C9. \<open>resetRateLimit\<close> deletes the window of the identifier under the key, and the valid
  \<open>checkRateLimit\<close> that follows it at once, for any limit of at least 1, is allowed with
  \<open>remaining = limit - 1\<close>.
\<close>

theorem reset_then_check:
  assumes "identifier \<noteq> []" and "key opts \<noteq> []" and "1 \<le> limit opts" and "1 \<le> window opts"
    and "redisClient w \<noteq> None"
  shows "store (snd (resetRateLimit identifier (key opts) w)) =
           (store w)(''ratelimit:'' @ key opts @ '':'' @ identifier := None) \<and>
         fst (checkRateLimit identifier opts (snd (resetRateLimit identifier (key opts) w))) =
           Inr \<lparr>allowed = True, remaining = limit opts - 1,
                resetAt = clock w + window opts * 1000, retryAfter = None\<rparr>"
proof -
  let ?rkey = "''ratelimit:'' @ key opts @ '':'' @ identifier"
  let ?w1 = "snd (resetRateLimit identifier (key opts) w)"
  note rw = resetRateLimit_world[OF assms(5), of "identifier" "key opts"]
  have z: "zset_at (store ?w1) (clock ?w1) ?rkey = Some []"
    unfolding rw by (simp add: zset_at_def lookup_def)
  have c: "int (length (filter (\<lambda>x. \<not> in_score_range 0 (clock ?w1 - window opts * 1000) x) [])) < limit opts"
    using assms(3) by simp
  have "fst (checkRateLimit identifier opts ?w1) =
     Inr \<lparr>allowed = True, remaining = max 0 (limit opts - 0 - 1),
          resetAt = clock ?w1 + window opts * 1000, retryAfter = None\<rparr>"
    by (subst checkRateLimit_accept[OF assms(1-4) rw(1) ratelimit_script_accept[OF z c]]) simp
  then show ?thesis
    using assms(3) by (simp add: rw)
qed

theorem reset_then_check_witness:
  "''u'' \<noteq> [] \<and> key ex_limit \<noteq> [] \<and> 1 \<le> limit ex_limit \<and> 1 \<le> window ex_limit \<and>
   redisClient ex_window \<noteq> None \<and>
   store (snd (resetRateLimit ''u'' ''api'' ex_window)) = Map.empty \<and>
   fst (checkRateLimit ''u'' ex_limit (snd (resetRateLimit ''u'' ''api'' ex_window))) =
     Inr \<lparr>allowed = True, remaining = 1, resetAt = 1700000001000, retryAfter = None\<rparr>"
proof -
  have v: "''u'' \<noteq> []" "key ex_limit \<noteq> []" "1 \<le> limit ex_limit" "1 \<le> window ex_limit"
    by (simp_all add: ex_limit_def)
  have c: "redisClient ex_window \<noteq> None" by (simp add: ex_window_simps)
  have k: "key ex_limit = ''api''" by (simp add: ex_limit_def)
  show ?thesis
    using v c reset_then_check[OF v c, unfolded k]
    by (simp add: ex_limit_def ex_window_simps)
qed

text \<open>
  C10. \<open>resetRateLimit\<close>, \<open>releaseLock\<close> and \<open>extendLock\<close> validate nothing: with a client
  in place, for every identifier, key, token and TTL they send their command to the store
  and never raise an \<open>Error\<close> of the package; \<open>resetRateLimit\<close> deletes the key
  \<open>ratelimit:<key>:<identifier>\<close> whatever the two strings are.
\<close>

theorem reset_release_extend_unvalidated:
  assumes "redisClient w \<noteq> None"
  shows "fst (resetRateLimit identifier k w) = Inr () \<and>
         trace (snd (resetRateLimit identifier k w)) =
           trace (snd (getCacheClient w)) @ [Command (DEL (''ratelimit:'' @ k @ '':'' @ identifier))] \<and>
         store (snd (resetRateLimit identifier k w)) =
           (store w)(''ratelimit:'' @ k @ '':'' @ identifier := None) \<and>
         (\<forall>msg. fst (releaseLock k token w) \<noteq> Inl (Error msg)) \<and>
         trace (snd (releaseLock k token w)) =
           trace (snd (getCacheClient w)) @ [Command (EVAL_release (''lock:'' @ k) token)] \<and>
         (\<forall>msg. fst (extendLock k token ms w) \<noteq> Inl (Error msg)) \<and>
         trace (snd (extendLock k token ms w)) =
           trace (snd (getCacheClient w)) @ [Command (EVAL_extend (''lock:'' @ k) token ms)]"
proof -
  have r1: "fst (releaseLock k token w) \<noteq> Inl (Error msg)" for msg
    using release_script_not_Error[of "store w" "clock w" "''lock:'' @ k" token msg]
    by (auto simp add: releaseLock_eq[OF assms] split: sum.splits prod.splits)
  have r2: "trace (snd (releaseLock k token w)) =
           trace (snd (getCacheClient w)) @ [Command (EVAL_release (''lock:'' @ k) token)]"
    by (simp add: releaseLock_eq[OF assms] issue_def split: sum.splits prod.splits)
  have e1: "fst (extendLock k token ms w) \<noteq> Inl (Error msg)" for msg
    using extend_script_not_Error[of "store w" "clock w" "''lock:'' @ k" token ms msg]
    by (auto simp add: extendLock_eq[OF assms] split: sum.splits prod.splits)
  have e2: "trace (snd (extendLock k token ms w)) =
           trace (snd (getCacheClient w)) @ [Command (EVAL_extend (''lock:'' @ k) token ms)]"
    by (simp add: extendLock_eq[OF assms] issue_def split: sum.splits prod.splits)
  show ?thesis
    using r1 r2 e1 e2 by (simp add: resetRateLimit_eq[OF assms] issue_def)
qed

theorem reset_release_extend_unvalidated_witness:
  "redisClient ex_world \<noteq> None \<and>
   fst (resetRateLimit [] [] ex_world) = Inr () \<and>
   trace (snd (resetRateLimit [] [] ex_world)) = [Command (DEL ''ratelimit::'')] \<and>
   trace (snd (releaseLock [] [] ex_world)) = [Command (EVAL_release ''lock:'' [])] \<and>
   trace (snd (extendLock [] [] (- 5) ex_world)) = [Command (EVAL_extend ''lock:'' [] (- 5))]"
proof -
  have c: "redisClient ex_world \<noteq> None" by (simp add: ex_world_simps)
  show ?thesis
    using c reset_release_extend_unvalidated[OF c, of "[]" "[]" "[]" "- 5"]
    by (simp add: ex_world_simps getCacheClient_ready)
qed

end
